theory Spec2Isabelle
  imports Complex_Main "HOL-Library.Sublist" "HOL-Library.Multiset"
begin

section \<open>Text primitives used by the classification algorithms\<close>

text \<open>
  The classification algorithms are the Python functions of \<^verbatim>\<open>TECHNICAL_SPEC.md\<close>
  (section "Classification Algorithms"); the preference filter is the JavaScript query
  pattern of the data schema document appended to it (section "Query Patterns").

  A text is a \<^typ>\<open>string\<close>. Characters are taken in the ASCII range: \<^verbatim>\<open>str.lower()\<close>
  maps \<^verbatim>\<open>A\<close>..\<^verbatim>\<open>Z\<close> to \<^verbatim>\<open>a\<close>..\<^verbatim>\<open>z\<close> and leaves every other character alone,
  \<^verbatim>\<open>\w\<close> is a letter, a digit or the underscore, and \<^verbatim>\<open>str.split()\<close> separates at
  the ASCII white space characters. Python's numbers (an \<^verbatim>\<open>int\<close> default such as 5, or
  the \<^verbatim>\<open>float\<close> of a true division) are modelled as exact reals.
\<close>

definition lower_char :: "char \<Rightarrow> char" where
  "lower_char c =
     (let n = (of_char c :: nat) in if 65 \<le> n \<and> n \<le> 90 then char_of (n + 32) else c)"

definition lower :: "string \<Rightarrow> string" where
  "lower text = map lower_char text"

definition is_word_char :: "char \<Rightarrow> bool" where
  "is_word_char c =
     (let n = (of_char c :: nat)
      in (48 \<le> n \<and> n \<le> 57) \<or> (65 \<le> n \<and> n \<le> 90) \<or> n = 95 \<or> (97 \<le> n \<and> n \<le> 122))"

definition is_space :: "char \<Rightarrow> bool" where
  "is_space c =
     (let n = (of_char c :: nat) in (9 \<le> n \<and> n \<le> 13) \<or> (28 \<le> n \<and> n \<le> 32))"

text \<open>
  \<open>runs p cur s\<close> collects the maximal runs of characters satisfying \<open>p\<close>, scanning \<open>s\<close>
  from the left with the run in progress (reversed) in \<open>cur\<close>. Both \<^verbatim>\<open>re.findall(r'\w+', s)\<close>
  and \<^verbatim>\<open>s.split()\<close> are such scans.
\<close>

fun runs :: "(char \<Rightarrow> bool) \<Rightarrow> string \<Rightarrow> string \<Rightarrow> string list" where
  "runs p cur [] = (if cur = [] then [] else [rev cur])"
| "runs p cur (c # cs) =
     (if p c then runs p (c # cur) cs
      else if cur = [] then runs p [] cs
      else rev cur # runs p [] cs)"

definition findall_w :: "string \<Rightarrow> string list" where
  "findall_w s = runs is_word_char [] s"

definition str_split :: "string \<Rightarrow> string list" where
  "str_split s = runs (\<lambda>c. \<not> is_space c) [] s"

text \<open>\<^verbatim>\<open>term in text\<close> on strings: \<open>term\<close> occurs in \<open>text\<close> as a contiguous substring.\<close>

fun startswith :: "string \<Rightarrow> string \<Rightarrow> bool" where
  "startswith s [] = True"
| "startswith [] (t # ts) = False"
| "startswith (c # cs) (t # ts) = (c = t \<and> startswith cs ts)"

fun str_in :: "string \<Rightarrow> string \<Rightarrow> bool" where
  "str_in t [] = (t = [])"
| "str_in t (c # cs) = (startswith (c # cs) t \<or> str_in t cs)"

text \<open>\<^verbatim>\<open>sum(x in text for x in xs)\<close>: each \<^verbatim>\<open>True\<close> adds 1, each \<^verbatim>\<open>False\<close> adds 0.\<close>

definition sum_in :: "string list \<Rightarrow> string \<Rightarrow> nat" where
  "sum_in xs text = sum_list (map (\<lambda>x. if str_in x text then 1 else 0) xs)"

section \<open>Bias detection\<close>

definition left_bias_terms :: "string list" where
  "left_bias_terms =
     [''progressive'', ''liberal'', ''democrat'', ''socialism'', ''green new deal'',
      ''universal healthcare'']"

definition right_bias_terms :: "string list" where
  "right_bias_terms =
     [''conservative'', ''republican'', ''trump'', ''tax cuts'', ''border wall'',
      ''deregulation'']"

definition estimate_bias :: "string \<Rightarrow> real" where
  "estimate_bias text =
     (if text = [] then 5
      else
        let text' = lower text;
            left_count = sum_in left_bias_terms text';
            right_count = sum_in right_bias_terms text'
        in if left_count = right_count then 10
           else
             let total = left_count + right_count
             in if total = 0 then 10
                else
                  let imbalance = \<bar>real left_count - real right_count\<bar> / real total
                  in min 10 (max 1 (10 - imbalance * 9)))"

section \<open>Reading level, information density, propaganda\<close>

text \<open>
  \<^verbatim>\<open>sent_tokenize\<close> is NLTK's and \<^verbatim>\<open>simple_tokenize\<close> is the fallback splitter; neither
  is defined in the document, so both are parameters of the model. Either may raise:
  \<open>Inl Exception\<close>. An exception of the first is caught by the inner \<^verbatim>\<open>try\<close>, which
  calls the second; an exception of the second reaches the outer \<^verbatim>\<open>except\<close>, which
  returns 5.
\<close>

datatype exn = Exception

type_synonym tokenizer = "string \<Rightarrow> exn + string list"

text \<open>The inner \<^verbatim>\<open>try\<close>: the sentences, or the exception of the fallback.\<close>

definition tokenize_sentences :: "tokenizer \<Rightarrow> tokenizer \<Rightarrow> string \<Rightarrow> exn + string list" where
  "tokenize_sentences sent_tokenize simple_tokenize text =
     (case sent_tokenize text of
        Inr sentences \<Rightarrow> Inr sentences
      | Inl e \<Rightarrow> simple_tokenize text)"

definition calculate_reading_level :: "tokenizer \<Rightarrow> tokenizer \<Rightarrow> string \<Rightarrow> real" where
  "calculate_reading_level sent_tokenize simple_tokenize text =
     (if text = [] then 5
      else
        case tokenize_sentences sent_tokenize simple_tokenize text of
          Inl e \<Rightarrow> 5
        | Inr sentences \<Rightarrow>
            if sentences = [] then 5
            else
              let avg_sentence_length =
                    real (sum_list (map (\<lambda>s. length (str_split s)) sentences))
                      / real (length sentences);
                  reading_level = min 10 (max 1 (avg_sentence_length / 3))
              in reading_level)"

definition calculate_information_density :: "string \<Rightarrow> real" where
  "calculate_information_density text =
     (if text = [] then 5
      else
        let words = findall_w (lower text)
        in if words = [] then 5
           else
             let unique_ratio = real (card (set words)) / real (length words)
             in min 10 (max 1 (unique_ratio * 20)))"

definition propaganda_indicators :: "string list" where
  "propaganda_indicators =
     [''must'', ''always'', ''never'', ''every'', ''all'', ''none'', ''everyone'', ''nobody'',
      ''undoubtedly'', ''certainly'', ''absolutely'', ''obviously'', ''clearly'', ''definitely'',
      ''!!'', ''??'', ''BREAKING'', ''EXCLUSIVE'']"

text \<open>The body of \<^verbatim>\<open>estimate_propaganda\<close>, with the indicator list as a parameter.\<close>

definition propaganda_score_with :: "string list \<Rightarrow> string \<Rightarrow> real" where
  "propaganda_score_with indicators text =
     (if text = [] then 5
      else
        let text' = lower text;
            indicator_count = sum_in indicators text';
            word_count = length (findall_w text')
        in if word_count = 0 then 5
           else
             let density = real indicator_count / (real word_count / 100)
             in min 10 (max 1 (10 - density)))"

definition estimate_propaganda :: "string \<Rightarrow> real" where
  "estimate_propaganda text = propaganda_score_with propaganda_indicators text"

section \<open>Topic classification\<close>

text \<open>The dictionary \<^verbatim>\<open>topic_keywords\<close>, in insertion order (the order \<^verbatim>\<open>items()\<close> yields).\<close>

definition topic_keywords :: "(string \<times> string list) list" where
  "topic_keywords =
     [(''politics'', [''politics'', ''government'', ''election'', ''president'', ''congress'',
         ''senate'', ''democracy'']),
      (''business'', [''business'', ''economy'', ''market'', ''stock'', ''finance'', ''company'',
         ''industry'']),
      (''technology'', [''technology'', ''tech'', ''ai'', ''software'', ''hardware'', ''internet'',
         ''app'', ''digital'']),
      (''science'', [''science'', ''research'', ''study'', ''discovery'', ''scientist'',
         ''physics'', ''chemistry'', ''biology'']),
      (''health'', [''health'', ''medical'', ''medicine'', ''disease'', ''doctor'', ''patient'',
         ''hospital'', ''wellness'']),
      (''sports'', [''sports'', ''game'', ''team'', ''player'', ''tournament'', ''championship'',
         ''league'', ''score'']),
      (''entertainment'', [''entertainment'', ''movie'', ''film'', ''music'', ''celebrity'',
         ''actor'', ''director'', ''tv'', ''television'']),
      (''world'', [''world'', ''international'', ''global'', ''foreign'', ''country'', ''nation'',
         ''diplomatic'', ''crisis''])]"

text \<open>\<^verbatim>\<open>any(keyword in combined_text for keyword in keywords)\<close>\<close>

definition any_in :: "string list \<Rightarrow> string \<Rightarrow> bool" where
  "any_in keywords combined_text = list_ex (\<lambda>keyword. str_in keyword combined_text) keywords"

text \<open>
  The loop over \<^verbatim>\<open>topic_keywords.items()\<close>, appending each matching topic to
  \<^verbatim>\<open>detected_topics\<close>.
\<close>

fun detect :: "(string \<times> string list) list \<Rightarrow> string \<Rightarrow> string list" where
  "detect [] combined_text = []"
| "detect ((topic, keywords) # rest) combined_text =
     (if any_in keywords combined_text then topic # detect rest combined_text
      else detect rest combined_text)"

text \<open>
  \<^verbatim>\<open>f"{title} {text or ''}"\<close> joins the two strings with one space (\<^verbatim>\<open>text or ''\<close> is
  \<^verbatim>\<open>text\<close> itself on a string).
\<close>

definition extract_topics :: "string \<Rightarrow> string \<Rightarrow> string list" where
  "extract_topics text title =
     (if text = [] \<and> title = [] then [''uncategorized'']
      else
        let combined_text = lower (title @ '' '' @ text);
            detected_topics = detect topic_keywords combined_text
        in if detected_topics = [] then [''uncategorized''] else detected_topics)"

section \<open>Article filtering by user preferences\<close>

text \<open>
  The documents of the articles collection and the preferences embedded in a user, with
  the fields the query pattern reads. A JavaScript \<^verbatim>\<open>Number\<close> is modelled as an exact real
  (a word count or a number of days as an integer), a \<^verbatim>\<open>Date\<close> as its time value in
  milliseconds. An article may lack its \<^verbatim>\<open>classification\<close>. The field
  \<^verbatim>\<open>classification.length\<close> is \<open>length_words\<close> here; \<open>reading_level\<close>,
  \<open>information_density\<close> and \<open>topics\<close> are fields of both the classification and the
  preferences and are written with the record's name in front.
\<close>

record classification =
  reading_level :: real
  information_density :: real
  bias_score :: real
  propaganda_score :: real
  length_words :: int
  topics :: "string list"
  region :: string

record article =
  url :: string
  published_date :: int
  is_paywalled :: bool
  classification :: "classification option"

record preferences =
  reading_level :: real
  information_density :: real
  bias_threshold :: real
  propaganda_threshold :: real
  max_length :: int
  min_length :: int
  topics :: "string list"
  regions :: "string list"
  show_paywalled :: bool
  topics_filter_type :: string
  max_age_days :: int

text \<open>
  The query document. Each field is one key of \<^verbatim>\<open>query\<close>, absent (\<open>None\<close>) when the
  code does not set it: \<^verbatim>\<open>is_paywalled\<close> (an exact value), \<^verbatim>\<open>published_date\<close> (its
  \<^verbatim>\<open>$gte\<close> bound), \<^verbatim>\<open>classification.topics\<close> (\<^verbatim>\<open>$all\<close> or \<^verbatim>\<open>$in\<close>),
  \<^verbatim>\<open>classification.region\<close> (\<^verbatim>\<open>$in\<close>) and \<^verbatim>\<open>classification.length\<close> (the keys
  \<^verbatim>\<open>$gte\<close> and \<^verbatim>\<open>$lte\<close> of \<^verbatim>\<open>lengthQuery\<close>).
\<close>

datatype topics_cond = Topics_all "string list" | Topics_in "string list"

record query =
  q_is_paywalled :: "bool option"
  q_published_date_gte :: "int option"
  q_topics :: "topics_cond option"
  q_region_in :: "string list option"
  q_length_gte :: "int option"
  q_length_lte :: "int option"

definition paywall_filter :: "preferences \<Rightarrow> bool option" where
  "paywall_filter prefs = (if \<not> show_paywalled prefs then Some False else None)"

text \<open>
  \<^verbatim>\<open>minDate = new Date(); minDate.setDate(minDate.getDate() - max_age_days)\<close> reads the
  clock and moves the local calendar date back by that many days. Clock, time zone and
  calendar are not in the code: \<open>days_ago n\<close> is the time value this gives for \<open>n\<close> days, a
  parameter of the model.
\<close>

definition age_filter :: "(int \<Rightarrow> int) \<Rightarrow> preferences \<Rightarrow> int option" where
  "age_filter days_ago prefs =
     (if max_age_days prefs > 0 then Some (days_ago (max_age_days prefs)) else None)"

definition topic_filter :: "preferences \<Rightarrow> topics_cond option" where
  "topic_filter prefs =
     (if length (preferences.topics prefs) > 0
      then (if topics_filter_type prefs = ''AND''
            then Some (Topics_all (preferences.topics prefs))
            else Some (Topics_in (preferences.topics prefs)))
      else None)"

definition region_filter :: "preferences \<Rightarrow> string list option" where
  "region_filter prefs = (if length (regions prefs) > 0 then Some (regions prefs) else None)"

definition build_query :: "(int \<Rightarrow> int) \<Rightarrow> preferences \<Rightarrow> query" where
  "build_query days_ago prefs =
     \<lparr> q_is_paywalled = paywall_filter prefs,
       q_published_date_gte = age_filter days_ago prefs,
       q_topics = topic_filter prefs,
       q_region_in = region_filter prefs,
       q_length_gte = (if min_length prefs > 0 then Some (min_length prefs) else None),
       q_length_lte = (if max_length prefs < 5000 then Some (max_length prefs) else None) \<rparr>"

text \<open>
  What the database does with the query document. On the array field
  \<^verbatim>\<open>classification.topics\<close>, \<^verbatim>\<open>$all\<close> selects the documents whose array holds every
  listed value and \<^verbatim>\<open>$in\<close> those whose array holds at least one; on a scalar field
  \<^verbatim>\<open>$in\<close> asks the value to be listed. A condition on a field of a missing
  \<^verbatim>\<open>classification\<close> selects nothing.
\<close>

definition matches_topics :: "topics_cond option \<Rightarrow> article \<Rightarrow> bool" where
  "matches_topics cond a =
     (case cond of
        None \<Rightarrow> True
      | Some tc \<Rightarrow>
          (case classification a of
             None \<Rightarrow> False
           | Some c \<Rightarrow>
               (case tc of
                  Topics_all ts \<Rightarrow> list_all (\<lambda>t. t \<in> set (classification.topics c)) ts
                | Topics_in ts \<Rightarrow> list_ex (\<lambda>t. t \<in> set (classification.topics c)) ts)))"

definition on_classification :: "'v option \<Rightarrow> (classification \<Rightarrow> 'v \<Rightarrow> bool) \<Rightarrow> article \<Rightarrow> bool" where
  "on_classification cond test a =
     (case cond of
        None \<Rightarrow> True
      | Some v \<Rightarrow> (case classification a of None \<Rightarrow> False | Some c \<Rightarrow> test c v))"

definition matches :: "query \<Rightarrow> article \<Rightarrow> bool" where
  "matches q a =
     ((case q_is_paywalled q of None \<Rightarrow> True | Some b \<Rightarrow> is_paywalled a = b) \<and>
      (case q_published_date_gte q of None \<Rightarrow> True | Some d \<Rightarrow> published_date a \<ge> d) \<and>
      matches_topics (q_topics q) a \<and>
      on_classification (q_region_in q) (\<lambda>c rs. region c \<in> set rs) a \<and>
      on_classification (q_length_gte q) (\<lambda>c n. length_words c \<ge> n) a \<and>
      on_classification (q_length_lte q) (\<lambda>c n. length_words c \<le> n) a)"

text \<open>
  \<^verbatim>\<open>find(query).sort("published_date", -1).skip(skip).limit(limit).toArray()\<close>: the
  matching documents, newest first, without the first \<open>skip\<close> and cut to \<open>limit\<close>
  documents; a limit of 0 is no limit, a negative one counts as its absolute value.
  The database sorts, and leaves the order of documents of equal date open: its sort
  \<open>sort_db\<close> is a parameter of the model, of which \<^term>\<open>descending_sort sort_db\<close> says
  all that is known, that it lists the same documents newest first.
\<close>

definition newest_first :: "article list \<Rightarrow> bool" where
  "newest_first as = sorted_wrt (\<lambda>a b. published_date a \<ge> published_date b) as"

definition descending_sort :: "(article list \<Rightarrow> article list) \<Rightarrow> bool" where
  "descending_sort sort_db = (\<forall>as. mset (sort_db as) = mset as \<and> newest_first (sort_db as))"

definition limit_to :: "int \<Rightarrow> article list \<Rightarrow> article list" where
  "limit_to limit as = (if limit = 0 then as else take (nat \<bar>limit\<bar>) as)"

definition find_page ::
  "(article list \<Rightarrow> article list) \<Rightarrow> query \<Rightarrow> nat \<Rightarrow> int \<Rightarrow> article list \<Rightarrow> article list" where
  "find_page sort_db q skip limit db =
     limit_to limit (drop skip (sort_db (filter (matches q) db)))"

text \<open>The callback of the post-query \<^verbatim>\<open>articles.filter\<close>.\<close>

definition post_query_keep :: "preferences \<Rightarrow> article \<Rightarrow> bool" where
  "post_query_keep prefs a =
     (case classification a of
        None \<Rightarrow> False
      | Some c \<Rightarrow>
          classification.reading_level c \<ge> preferences.reading_level prefs - 2 \<and>
          classification.reading_level c \<le> preferences.reading_level prefs + 2 \<and>
          classification.information_density c \<ge> preferences.information_density prefs - 2 \<and>
          classification.information_density c \<le> preferences.information_density prefs + 2 \<and>
          bias_score c \<ge> bias_threshold prefs \<and>
          propaganda_score c \<ge> propaganda_threshold prefs)"

definition filter_articles ::
  "(article list \<Rightarrow> article list) \<Rightarrow> (int \<Rightarrow> int) \<Rightarrow> nat \<Rightarrow> int \<Rightarrow> preferences \<Rightarrow>
     article list \<Rightarrow> article list" where
  "filter_articles sort_db days_ago skip limit prefs db =
     filter (post_query_keep prefs)
       (find_page sort_db (build_query days_ago prefs) skip limit db)"

section \<open>Reference definitions\<close>

text \<open>
  The formulas as the specification words them, to compare the code with. A term
  "occurs as a substring" when it is a contiguous sublist (\<^const>\<open>sublist\<close>) of the text.
\<close>

definition clamp :: "real \<Rightarrow> real \<Rightarrow> real \<Rightarrow> real" where
  "clamp x lo hi = (if x < lo then lo else if hi < x then hi else x)"

definition hits :: "string list \<Rightarrow> string \<Rightarrow> nat" where
  "hits terms text = length (filter (\<lambda>t. sublist t (lower text)) terms)"

definition bias_reference :: "string \<Rightarrow> real" where
  "bias_reference text =
     (let left_count = hits left_bias_terms text;
          right_count = hits right_bias_terms text
      in if left_count = right_count then 10
         else clamp (10 - (\<bar>real left_count - real right_count\<bar>
                             / real (left_count + right_count)) * 9) 1 10)"

definition total_words :: "string list \<Rightarrow> nat" where
  "total_words sentences = length (concat (map str_split sentences))"

definition reading_level_reference :: "string \<Rightarrow> string list \<Rightarrow> real" where
  "reading_level_reference text sentences =
     (if text = [] \<or> length sentences = 0 then 5
      else clamp ((real (total_words sentences) / real (length sentences)) / 3) 1 10)"

text \<open>
  The word tokens of the specification: the alphanumeric runs (letters and digits) of
  the case-folded text.
\<close>

definition is_alnum_char :: "char \<Rightarrow> bool" where
  "is_alnum_char c =
     (let n = (of_char c :: nat)
      in (48 \<le> n \<and> n \<le> 57) \<or> (65 \<le> n \<and> n \<le> 90) \<or> (97 \<le> n \<and> n \<le> 122))"

definition word_tokens :: "string \<Rightarrow> string list" where
  "word_tokens text = runs is_alnum_char [] (lower text)"

text \<open>
  The propaganda formula over a count of words: 5 for no word, otherwise 10 minus the
  hits per 100 words, clamped.
\<close>

definition propaganda_formula :: "nat \<Rightarrow> nat \<Rightarrow> real" where
  "propaganda_formula indicator_count n =
     (if n = 0 then 5 else clamp (10 - real indicator_count / (real n / 100)) 1 10)"

definition propaganda_reference :: "string \<Rightarrow> real" where
  "propaganda_reference text =
     propaganda_formula (hits propaganda_indicators text) (length (word_tokens text))"

text \<open>
  The same formula over the tokens the code counts, the matches of \<^verbatim>\<open>\w+\<close>: runs of
  letters, digits and underscores.
\<close>

definition regex_word_count :: "string \<Rightarrow> nat" where
  "regex_word_count text = length (findall_w (lower text))"

definition propaganda_reference_regex :: "string \<Rightarrow> real" where
  "propaganda_reference_regex text =
     propaganda_formula (hits propaganda_indicators text) (regex_word_count text)"

text \<open>\<^verbatim>\<open>estimate_propaganda\<close> without the two upper-case indicators.\<close>

definition estimate_propaganda_lowercase_only :: "string \<Rightarrow> real" where
  "estimate_propaganda_lowercase_only text =
     propaganda_score_with
       [''must'', ''always'', ''never'', ''every'', ''all'', ''none'', ''everyone'', ''nobody'',
        ''undoubtedly'', ''certainly'', ''absolutely'', ''obviously'', ''clearly'',
        ''definitely'', ''!!'', ''??'']
       text"


text \<open>An article survives both stages of the filter.\<close>

definition survives :: "(int \<Rightarrow> int) \<Rightarrow> preferences \<Rightarrow> article \<Rightarrow> bool" where
  "survives days_ago prefs a =
     (matches (build_query days_ago prefs) a \<and> post_query_keep prefs a)"

text \<open>The closed windows and inclusive minimums of the second stage.\<close>

definition within_preferences :: "preferences \<Rightarrow> classification \<Rightarrow> bool" where
  "within_preferences prefs c =
     (classification.reading_level c
        \<in> {preferences.reading_level prefs - 2 .. preferences.reading_level prefs + 2} \<and>
      classification.information_density c
        \<in> {preferences.information_density prefs - 2 .. preferences.information_density prefs + 2} \<and>
      bias_score c \<ge> bias_threshold prefs \<and>
      propaganda_score c \<ge> propaganda_threshold prefs)"

section \<open>Sample data\<close>

text \<open>
  A preference record asking for the topics technology and health, in the given mode,
  and an article on technology published at the given time.
\<close>

definition sample_preferences :: "string \<Rightarrow> preferences" where
  "sample_preferences mode =
     \<lparr> preferences.reading_level = 5, preferences.information_density = 5,
       bias_threshold = 7, propaganda_threshold = 5,
       max_length = 5000, min_length = 0,
       preferences.topics = [''technology'', ''health''], regions = [],
       show_paywalled = True, topics_filter_type = mode, max_age_days = 30 \<rparr>"

definition sample_classification :: classification where
  "sample_classification =
     \<lparr> classification.reading_level = 7, classification.information_density = 3,
       bias_score = 7, propaganda_score = 10, length_words = 300,
       classification.topics = [''technology''], region = ''europe'' \<rparr>"

definition sample_article :: "string \<Rightarrow> int \<Rightarrow> article" where
  "sample_article u date =
     \<lparr> url = u, published_date = date, is_paywalled = False,
       classification = Some sample_classification \<rparr>"

text \<open>
  A clock at time 0 with days of 86400000 ms, the stable descending sort, and a second
  descending sort that lists documents of equal date in the opposite order.
\<close>

definition sample_days_ago :: "int \<Rightarrow> int" where
  "sample_days_ago n = 0 - n * 86400000"

definition sort_desc :: "article list \<Rightarrow> article list" where
  "sort_desc as = sort_key (\<lambda>a. - published_date a) as"

definition sort_desc_reversing :: "article list \<Rightarrow> article list" where
  "sort_desc_reversing as = rev (sort_key published_date as)"

section \<open>Facts about the text primitives\<close>

text \<open>The scans on small inputs.\<close>

lemma lower_example: "lower ''Tax Cuts, 2025!'' = ''tax cuts, 2025!''"
  by code_simp

lemma findall_w_example:
  "findall_w ''Don't  stop_now, 2 go!'' = [''Don'', ''t'', ''stop_now'', ''2'', ''go'']"
  by code_simp

lemma str_split_example: "str_split '' The  cat sat. '' = [''The'', ''cat'', ''sat.'']"
  by code_simp

lemma str_in_example:
  "str_in ''tax cuts'' ''new tax cuts now'' \<and> \<not> str_in ''tax cuts'' ''tax  cuts''"
  by simp

lemma startswith_prefix: "startswith s t \<longleftrightarrow> prefix t s"
  by (induction s t rule: startswith.induct) auto

lemma str_in_sublist: "str_in t s \<longleftrightarrow> sublist t s"
  by (induction s) (auto simp: startswith_prefix sublist_Cons_right)

lemma sum_in_filter: "sum_in xs text = length (filter (\<lambda>x. sublist x text) xs)"
  unfolding sum_in_def by (induction xs) (auto simp: str_in_sublist)

lemma sum_in_hits: "sum_in xs (lower text) = hits xs text"
  by (simp add: sum_in_filter hits_def)

lemma sum_in_append: "sum_in (xs @ ys) text = sum_in xs text + sum_in ys text"
  by (simp add: sum_in_def)

lemma lower_char_not_upper:
  "\<not> (65 \<le> (of_char (lower_char c) :: nat) \<and> (of_char (lower_char c) :: nat) \<le> 90)"
  by (auto simp: lower_char_def Let_def)

lemma lower_no_upper:
  assumes "c \<in> set (lower text)"
  shows "\<not> (65 \<le> (of_char c :: nat) \<and> (of_char c :: nat) \<le> 90)"
  using assms lower_char_not_upper by (auto simp: lower_def)

lemma sublist_set: "sublist t s \<Longrightarrow> set t \<subseteq> set s"
  by (auto simp: sublist_def)

lemma lower_Nil_iff: "lower text = [] \<longleftrightarrow> text = []"
  by (simp add: lower_def)

lemma clamp_min_max: "clamp x 1 10 = min 10 (max 1 x)"
  by (simp add: clamp_def min_def max_def)

lemma total_words_sum: "total_words sentences = sum_list (map (\<lambda>s. length (str_split s)) sentences)"
  by (simp add: total_words_def length_concat comp_def)

lemma regex_word_count_Nil: "regex_word_count [] = 0"
  by (simp add: regex_word_count_def lower_def findall_w_def)

lemma runs_cong:
  assumes "\<forall>c \<in> set s. p c = q c"
  shows "runs p cur s = runs q cur s"
  using assms by (induction s arbitrary: cur) auto

lemma lower_char_underscore: "(of_char (lower_char c) :: nat) = 95 \<longleftrightarrow> (of_char c :: nat) = 95"
  by (auto simp: lower_char_def Let_def)

lemma word_char_alnum:
  "is_word_char c \<longleftrightarrow> is_alnum_char c \<or> (of_char c :: nat) = 95"
  by (auto simp: is_word_char_def is_alnum_char_def Let_def)

lemma word_tokens_regex:
  assumes "CHR ''_'' \<notin> set text"
  shows "length (word_tokens text) = regex_word_count text"
proof -
  have "is_word_char c = is_alnum_char c" if "c \<in> set (lower text)" for c
  proof -
    from that obtain d where d: "d \<in> set text" and c: "c = lower_char d"
      by (auto simp: lower_def)
    from d assms have "d \<noteq> CHR ''_''" by auto
    moreover have "(of_char (CHR ''_'') :: nat) = 95" by simp
    ultimately have "(of_char d :: nat) \<noteq> 95"
      by (metis of_char_eq_iff)
    then have "(of_char c :: nat) \<noteq> 95" by (simp add: c lower_char_underscore)
    then show ?thesis by (simp add: word_char_alnum)
  qed
  then have "runs is_word_char [] (lower text) = runs is_alnum_char [] (lower text)"
    by (intro runs_cong) simp
  then show ?thesis by (simp add: word_tokens_def regex_word_count_def findall_w_def)
qed

section \<open>Facts about the topic table and the page of the query\<close>

lemma detect_set:
  "topic \<in> set (detect tk ct) \<longleftrightarrow> (\<exists>kws. (topic, kws) \<in> set tk \<and> any_in kws ct)"
  by (induction tk ct rule: detect.induct) auto

lemma any_in_iff: "any_in kws ct \<longleftrightarrow> (\<exists>k \<in> set kws. sublist k ct)"
  by (simp add: any_in_def list_ex_iff str_in_sublist)

lemma detect_distinct:
  assumes "distinct (map fst tk)" "(topic, kws) \<in> set tk"
  shows "topic \<in> set (detect tk ct) \<longleftrightarrow> (\<exists>k \<in> set kws. sublist k ct)"
proof -
  have same: "kws' = kws" if "(topic, kws') \<in> set tk" for kws'
    using assms that by (meson eq_key_imp_eq_value)
  have "topic \<in> set (detect tk ct) \<longleftrightarrow> any_in kws ct"
  proof
    assume "topic \<in> set (detect tk ct)"
    then obtain kws' where m: "(topic, kws') \<in> set tk" and a: "any_in kws' ct"
      unfolding detect_set by blast
    from m have "kws' = kws" by (rule same)
    with a show "any_in kws ct" by simp
  next
    assume "any_in kws ct"
    with assms(2) show "topic \<in> set (detect tk ct)"
      unfolding detect_set by blast
  qed
  then show ?thesis by (simp only: any_in_iff)
qed

lemma detect_Nil_iff:
  "detect tk ct = [] \<longleftrightarrow> (\<forall>(topic, kws) \<in> set tk. \<forall>k \<in> set kws. \<not> sublist k ct)"
  by (induction tk ct rule: detect.induct) (auto simp: any_in_iff)



lemma topic_keywords_distinct: "distinct (map fst topic_keywords)"
  by (simp add: topic_keywords_def)

lemma uncategorized_not_topic: "(''uncategorized'', kws) \<notin> set topic_keywords"
  by (simp add: topic_keywords_def)

lemma detect_blank: "detect topic_keywords (lower '' '') = []"
  by code_simp

lemma extract_topics_detect:
  "extract_topics text title =
     (if detect topic_keywords (lower (title @ '' '' @ text)) = [] then [''uncategorized'']
      else detect topic_keywords (lower (title @ '' '' @ text)))"
proof (cases "text = [] \<and> title = []")
  case True
  then show ?thesis using detect_blank by (simp add: extract_topics_def)
next
  case False
  then show ?thesis by (auto simp: extract_topics_def Let_def)
qed

lemma newest_first_sorted:
  "newest_first as \<longleftrightarrow> sorted (map (\<lambda>a. - published_date a) as)"
  by (simp add: newest_first_def sorted_wrt_map)

text \<open>
  Where the dates are pairwise distinct there is one listing of the documents that is
  newest first, so every descending sort leaves a list alone that is newest first
  already.
\<close>

lemma filter_eq_singleton:
  assumes "distinct xs" "k \<in> set xs"
  shows "filter (\<lambda>x. x = k) xs = [k]"
  using assms by (induction xs) (auto simp: filter_empty_conv)

lemma filter_key_singleton:
  assumes "distinct (map f xs)" "k \<in> set xs"
  shows "filter (\<lambda>x. f k = f x) xs = [k]"
proof -
  have inj: "inj_on f (set xs)" and d: "distinct xs"
    using assms(1) by (simp_all add: distinct_map)
  have "filter (\<lambda>x. f k = f x) xs = filter (\<lambda>x. x = k) xs"
    by (rule filter_cong) (use inj assms(2) in \<open>auto dest: inj_onD\<close>)
  then show ?thesis using filter_eq_singleton [OF d assms(2)] by simp
qed

lemma sort_desc_unique:
  assumes "mset ys = mset xs" "newest_first ys" "distinct (map published_date xs)"
  shows "sort_desc xs = ys"
proof -
  let ?f = "\<lambda>a. - published_date a"
  have dx: "distinct (map ?f xs)"
    using assms(3) by (simp add: distinct_map inj_on_def)
  have "mset (map ?f ys) = mset (map ?f xs)"
    using assms(1) by (metis mset_map)
  then have dy: "distinct (map ?f ys)"
    using dx by (metis mset_eq_imp_distinct_iff)
  have sets: "set ys = set xs"
    using assms(1) by (rule mset_eq_setD)
  have same: "filter (\<lambda>x. ?f k = ?f x) ys = filter (\<lambda>x. ?f k = ?f x) xs"
    if "k \<in> set ys" for k
    using that sets filter_key_singleton [OF dx, of k] filter_key_singleton [OF dy, of k]
    by simp
  have "sorted (map ?f ys)"
    using assms(2) by (simp only: newest_first_sorted)
  with assms(1) same show ?thesis
    unfolding sort_desc_def by (intro properties_for_sort_key) auto
qed

lemma descending_sort_id:
  assumes "descending_sort sort_db" "newest_first xs" "distinct (map published_date xs)"
  shows "sort_db xs = xs"
proof -
  from assms(1) have "mset (sort_db xs) = mset xs" and "newest_first (sort_db xs)"
    by (simp_all add: descending_sort_def)
  then have "sort_desc xs = sort_db xs" using assms(3) by (rule sort_desc_unique)
  moreover have "sort_desc xs = xs"
    using assms(2,3) by (intro sort_desc_unique) simp_all
  ultimately show ?thesis by simp
qed

lemma descending_sort_sort_desc: "descending_sort sort_desc"
proof -
  have "newest_first (sort_desc as)" for as
    by (simp only: newest_first_sorted sort_desc_def sorted_sort_key)
  then show ?thesis by (simp add: descending_sort_def sort_desc_def)
qed

lemma descending_sort_reversing: "descending_sort sort_desc_reversing"
proof -
  have "newest_first (sort_desc_reversing as)" for as
  proof -
    have "sorted (map published_date (sort_key published_date as))" by (rule sorted_sort_key)
    then have "sorted_wrt (\<ge>) (rev (map published_date (sort_key published_date as)))"
      by (simp add: sorted_wrt_rev)
    then show ?thesis
      by (simp add: newest_first_def sort_desc_reversing_def sorted_wrt_map rev_map)
  qed
  then show ?thesis by (simp add: descending_sort_def sort_desc_reversing_def)
qed

lemma distinct_dates_filter:
  "distinct (map published_date db) \<Longrightarrow> distinct (map published_date (filter P db))"
  by (rule distinct_map_filter)

lemma subseq_take: "subseq (take n xs) xs"
proof -
  have "subseq (take n xs) (take n xs @ drop n xs)" by (rule subseq_rev_drop_many) simp
  then show ?thesis by simp
qed

lemma subseq_drop: "subseq (drop n xs) xs"
proof -
  have "subseq (drop n xs) (take n xs @ drop n xs)" by (rule subseq_drop_many) simp
  then show ?thesis by simp
qed

lemma subseq_limit_to: "subseq (limit_to limit as) as"
  by (simp add: limit_to_def subseq_take)

lemma newest_first_filter: "newest_first as \<Longrightarrow> newest_first (filter P as)"
  by (simp add: newest_first_def sorted_wrt_filter)

lemma newest_first_drop: "newest_first as \<Longrightarrow> newest_first (drop n as)"
  by (simp add: newest_first_def sorted_wrt_drop)

lemma newest_first_limit_to: "newest_first as \<Longrightarrow> newest_first (limit_to limit as)"
  by (simp add: newest_first_def limit_to_def sorted_wrt_take)

lemma limit_to_all:
  assumes "limit = 0 \<or> int (length as) \<le> \<bar>limit\<bar>"
  shows "limit_to limit as = as"
  using assms by (auto simp: limit_to_def)


lemma find_page_sorted:
  assumes "descending_sort sort_db" "newest_first db" "distinct (map published_date db)"
  shows "find_page sort_db q skip limit db = limit_to limit (drop skip (filter (matches q) db))"
proof -
  have "sort_db (filter (matches q) db) = filter (matches q) db"
    using assms by (intro descending_sort_id newest_first_filter distinct_dates_filter)
  then show ?thesis by (simp add: find_page_def)
qed

lemma post_query_keep_within:
  "post_query_keep prefs a \<longleftrightarrow>
     (\<exists>c. classification a = Some c \<and> within_preferences prefs c)"
  by (auto simp: post_query_keep_def within_preferences_def split: option.splits)

lemma sample_article_matches:
  "matches (build_query sample_days_ago (sample_preferences ''OR'')) (sample_article u d)
     \<longleftrightarrow> d \<ge> - 2592000000"
  by (simp add: matches_def build_query_def paywall_filter_def age_filter_def topic_filter_def
      region_filter_def matches_topics_def on_classification_def sample_preferences_def
      sample_article_def sample_classification_def sample_days_ago_def)

lemma sample_article_kept: "post_query_keep (sample_preferences ''OR'') (sample_article u d)"
  by (simp add: post_query_keep_def sample_preferences_def sample_article_def
      sample_classification_def)

section \<open>The four scores\<close>

text \<open>
  Claim C1. For every text, each of the four calculators returns a value in the closed
  interval from 1 to 10, whatever the two sentence tokenizers do (return sentences or
  raise).
\<close>

theorem scores_in_range:
  "1 \<le> calculate_reading_level sent_tokenize simple_tokenize text \<and>
   calculate_reading_level sent_tokenize simple_tokenize text \<le> 10 \<and>
   1 \<le> calculate_information_density text \<and> calculate_information_density text \<le> 10 \<and>
   1 \<le> estimate_bias text \<and> estimate_bias text \<le> 10 \<and>
   1 \<le> estimate_propaganda text \<and> estimate_propaganda text \<le> 10"
proof -
  have rl: "1 \<le> calculate_reading_level sent_tokenize simple_tokenize text \<and>
      calculate_reading_level sent_tokenize simple_tokenize text \<le> 10"
    by (simp add: calculate_reading_level_def Let_def split: sum.splits)
  have dens: "1 \<le> calculate_information_density text \<and> calculate_information_density text \<le> 10"
    by (simp add: calculate_information_density_def Let_def)
  have bias: "1 \<le> estimate_bias text \<and> estimate_bias text \<le> 10"
    by (simp add: estimate_bias_def Let_def)
  have propa: "1 \<le> estimate_propaganda text \<and> estimate_propaganda text \<le> 10"
    by (simp add: estimate_propaganda_def propaganda_score_with_def Let_def)
  from rl dens bias propa show ?thesis by blast
qed

text \<open>
  Claim C4. On the empty text each calculator returns the default 5; the reading level
  does so without looking at what the tokenizers would return.
\<close>

theorem empty_text_defaults:
  "calculate_reading_level sent_tokenize simple_tokenize '''' = 5 \<and>
   calculate_information_density '''' = 5 \<and>
   estimate_bias '''' = 5 \<and>
   estimate_propaganda '''' = 5"
  by (simp add: calculate_reading_level_def calculate_information_density_def estimate_bias_def
      estimate_propaganda_def propaganda_score_with_def)

section \<open>Bias score\<close>

text \<open>
  Claim C3 as stated fails on the empty text: both counts are zero, hence equal, and the
  guard \<^verbatim>\<open>if not text: return 5\<close> returns 5 where the reference formula gives 10.
\<close>

theorem estimate_bias_empty_counterexample:
  "hits left_bias_terms '''' = hits right_bias_terms '''' \<and>
   estimate_bias '''' \<noteq> 10 \<and> estimate_bias '''' \<noteq> bias_reference ''''"
proof -
  have h: "hits left_bias_terms '''' = 0" "hits right_bias_terms '''' = 0"
    by (simp_all add: hits_def lower_def left_bias_terms_def right_bias_terms_def)
  have e: "estimate_bias '''' = 5" by (simp add: estimate_bias_def)
  have r: "bias_reference '''' = 10" by (simp add: bias_reference_def h)
  show ?thesis using h e r by simp
qed

text \<open>
  Claim C3, amended. For every non-empty text, \<^const>\<open>estimate_bias\<close> equals the reference
  definition, where each term of either fixed list counts one hit when it occurs as a
  substring of the lower-case text: equal counts (both zero included) give 10, unequal
  counts give the clamped formula, and two left hits with no right hit give 1.
\<close>

theorem estimate_bias_reference:
  assumes "text \<noteq> []"
  shows "estimate_bias text = bias_reference text \<and>
    (hits left_bias_terms text = hits right_bias_terms text \<longrightarrow> estimate_bias text = 10) \<and>
    (hits left_bias_terms text \<noteq> hits right_bias_terms text \<longrightarrow>
       estimate_bias text =
         clamp (10 - (\<bar>real (hits left_bias_terms text) - real (hits right_bias_terms text)\<bar>
                 / real (hits left_bias_terms text + hits right_bias_terms text)) * 9) 1 10) \<and>
    (hits left_bias_terms text = 2 \<and> hits right_bias_terms text = 0 \<longrightarrow> estimate_bias text = 1)"
proof -
  have eq: "estimate_bias text = bias_reference text"
    using assms
    by (simp add: estimate_bias_def bias_reference_def Let_def sum_in_hits clamp_min_max)
  have two: "estimate_bias text = 1"
    if "hits left_bias_terms text = 2" "hits right_bias_terms text = 0"
    using that by (simp add: eq bias_reference_def clamp_def)
  show ?thesis using eq two by (auto simp: bias_reference_def Let_def)
qed

text \<open>The text \<open>Liberal Democrat\<close> has two left hits and no right hit.\<close>

theorem estimate_bias_reference_witness:
  "''Liberal Democrat'' \<noteq> [] \<and> hits left_bias_terms ''Liberal Democrat'' = 2 \<and>
   hits right_bias_terms ''Liberal Democrat'' = 0 \<and>
   estimate_bias ''Liberal Democrat'' = 1 \<and> bias_reference ''Liberal Democrat'' = 1"
proof -
  have l: "hits left_bias_terms ''Liberal Democrat'' = 2" by code_simp
  have r: "hits right_bias_terms ''Liberal Democrat'' = 0" by code_simp
  show ?thesis using estimate_bias_reference [of "''Liberal Democrat''"] l r by simp
qed

section \<open>Reading level\<close>

text \<open>
  Claim C5. When the tokenization yields the sentences, \<^const>\<open>calculate_reading_level\<close>
  equals the reference definition: 5 for an empty text or no sentence, otherwise the
  average number of words per sentence divided by 3 and clamped to 1..10. The two
  sentences \<open>The cat sat.\<close> and \<open>The cat sat on the mat.\<close> give 1.5.
\<close>

theorem calculate_reading_level_reference:
  "(tokenize_sentences sent_tokenize simple_tokenize text = Inr sentences \<longrightarrow>
      calculate_reading_level sent_tokenize simple_tokenize text
        = reading_level_reference text sentences) \<and>
   (text = [] \<longrightarrow> calculate_reading_level sent_tokenize simple_tokenize text = 5) \<and>
   (text \<noteq> [] \<and>
    tokenize_sentences sent_tokenize simple_tokenize text
      = Inr [''The cat sat.'', ''The cat sat on the mat.''] \<longrightarrow>
      calculate_reading_level sent_tokenize simple_tokenize text = 3 / 2)"
proof -
  have eq: "calculate_reading_level sent_tokenize simple_tokenize text
      = reading_level_reference text sentences"
    if "tokenize_sentences sent_tokenize simple_tokenize text = Inr sentences" for sentences
    using that
    by (simp add: calculate_reading_level_def reading_level_reference_def total_words_sum
        clamp_min_max Let_def)
  have empty: "calculate_reading_level sent_tokenize simple_tokenize text = 5" if "text = []"
    using that by (simp add: calculate_reading_level_def)
  have w1: "length (str_split ''The cat sat.'') = 3" by code_simp
  have w2: "length (str_split ''The cat sat on the mat.'') = 6" by code_simp
  have cats: "calculate_reading_level sent_tokenize simple_tokenize text = 3 / 2"
    if "text \<noteq> []" "tokenize_sentences sent_tokenize simple_tokenize text
      = Inr [''The cat sat.'', ''The cat sat on the mat.'']"
    using that by (simp add: calculate_reading_level_def Let_def w1 w2)
  show ?thesis using eq empty cats by blast
qed

text \<open>
  The example text, with a primary tokenizer that raises and a fallback that returns the
  two sentences.
\<close>

theorem calculate_reading_level_reference_witness:
  "tokenize_sentences (\<lambda>t. Inl Exception)
      (\<lambda>t. Inr [''The cat sat.'', ''The cat sat on the mat.''])
      ''The cat sat. The cat sat on the mat.''
     = Inr [''The cat sat.'', ''The cat sat on the mat.''] \<and>
   calculate_reading_level (\<lambda>t. Inl Exception)
      (\<lambda>t. Inr [''The cat sat.'', ''The cat sat on the mat.''])
      ''The cat sat. The cat sat on the mat.'' = 3 / 2 \<and>
   reading_level_reference ''The cat sat. The cat sat on the mat.''
      [''The cat sat.'', ''The cat sat on the mat.''] = 3 / 2"
proof -
  let ?st = "\<lambda>t :: string. (Inl Exception :: exn + string list)"
  let ?ft = "\<lambda>t :: string. (Inr [''The cat sat.'', ''The cat sat on the mat.''] :: exn + string list)"
  let ?text = "''The cat sat. The cat sat on the mat.''"
  have t: "tokenize_sentences ?st ?ft ?text = Inr [''The cat sat.'', ''The cat sat on the mat.'']"
    by (simp add: tokenize_sentences_def)
  have n: "?text \<noteq> []" by simp
  from calculate_reading_level_reference
    [of ?st ?ft ?text "[''The cat sat.'', ''The cat sat on the mat.'']"] t n
  show ?thesis by simp
qed

section \<open>Propaganda score\<close>

text \<open>
  Claim C6, amended. \<^const>\<open>estimate_propaganda\<close> equals the reference formula over the
  tokens the code counts, the runs of letters, digits and underscores of the lower-case
  text: 5 when there is none, otherwise 10 minus the number of indicators hit per 100
  such tokens, clamped to 1..10. For a text without underscore these are the word
  tokens of the specification and the claim holds as stated. Two hits in a text of 100
  words give 8.
\<close>

theorem estimate_propaganda_regex_reference:
  "estimate_propaganda text = propaganda_reference_regex text \<and>
   (CHR ''_'' \<notin> set text \<longrightarrow> estimate_propaganda text = propaganda_reference text) \<and>
   (hits propaganda_indicators text = 2 \<and> regex_word_count text = 100 \<longrightarrow>
      estimate_propaganda text = 8)"
proof -
  have eq: "estimate_propaganda text = propaganda_reference_regex text"
  proof (cases "text = []")
    case True
    then show ?thesis
      by (simp add: estimate_propaganda_def propaganda_score_with_def
          propaganda_reference_regex_def propaganda_formula_def regex_word_count_Nil)
  next
    case False
    then show ?thesis
      by (simp add: estimate_propaganda_def propaganda_score_with_def
          propaganda_reference_regex_def propaganda_formula_def regex_word_count_def
          sum_in_hits clamp_min_max Let_def)
  qed
  have plain: "estimate_propaganda text = propaganda_reference text"
    if "CHR ''_'' \<notin> set text"
    using that
    by (simp add: eq propaganda_reference_regex_def propaganda_reference_def word_tokens_regex)
  have ex: "estimate_propaganda text = 8"
    if "hits propaganda_indicators text = 2" "regex_word_count text = 100"
    using that by (simp add: eq propaganda_reference_regex_def propaganda_formula_def clamp_def)
  show ?thesis using eq plain ex by blast
qed

text \<open>A text of 100 words, without underscore, with the two hits \<open>must\<close> and \<open>never\<close>.\<close>

theorem estimate_propaganda_regex_reference_witness:
  "CHR ''_'' \<notin> set ''must never a a a a a a a a a a a a a a a a a a a a a a a a a a a a a a a a a a a a a a a a a a a a a a a a a a a a a a a a a a a a a a a a a a a a a a a a a a a a a a a a a a a a a a a a a a a a a a a a a a'' \<and>
   hits propaganda_indicators ''must never a a a a a a a a a a a a a a a a a a a a a a a a a a a a a a a a a a a a a a a a a a a a a a a a a a a a a a a a a a a a a a a a a a a a a a a a a a a a a a a a a a a a a a a a a a a a a a a a a a'' = 2 \<and>
   regex_word_count ''must never a a a a a a a a a a a a a a a a a a a a a a a a a a a a a a a a a a a a a a a a a a a a a a a a a a a a a a a a a a a a a a a a a a a a a a a a a a a a a a a a a a a a a a a a a a a a a a a a a a'' = 100 \<and>
   estimate_propaganda ''must never a a a a a a a a a a a a a a a a a a a a a a a a a a a a a a a a a a a a a a a a a a a a a a a a a a a a a a a a a a a a a a a a a a a a a a a a a a a a a a a a a a a a a a a a a a a a a a a a a a'' = 8 \<and>
   propaganda_reference ''must never a a a a a a a a a a a a a a a a a a a a a a a a a a a a a a a a a a a a a a a a a a a a a a a a a a a a a a a a a a a a a a a a a a a a a a a a a a a a a a a a a a a a a a a a a a a a a a a a a a'' = 8 \<and>
   propaganda_reference_regex ''must never a a a a a a a a a a a a a a a a a a a a a a a a a a a a a a a a a a a a a a a a a a a a a a a a a a a a a a a a a a a a a a a a a a a a a a a a a a a a a a a a a a a a a a a a a a a a a a a a a a'' = 8"
proof -
  have u: "CHR ''_'' \<notin> set ''must never a a a a a a a a a a a a a a a a a a a a a a a a a a a a a a a a a a a a a a a a a a a a a a a a a a a a a a a a a a a a a a a a a a a a a a a a a a a a a a a a a a a a a a a a a a a a a a a a a a''" by simp
  have h: "hits propaganda_indicators ''must never a a a a a a a a a a a a a a a a a a a a a a a a a a a a a a a a a a a a a a a a a a a a a a a a a a a a a a a a a a a a a a a a a a a a a a a a a a a a a a a a a a a a a a a a a a a a a a a a a a'' = 2" by code_simp
  have w: "regex_word_count ''must never a a a a a a a a a a a a a a a a a a a a a a a a a a a a a a a a a a a a a a a a a a a a a a a a a a a a a a a a a a a a a a a a a a a a a a a a a a a a a a a a a a a a a a a a a a a a a a a a a a'' = 100" by code_simp
  show ?thesis using estimate_propaganda_regex_reference [of "''must never a a a a a a a a a a a a a a a a a a a a a a a a a a a a a a a a a a a a a a a a a a a a a a a a a a a a a a a a a a a a a a a a a a a a a a a a a a a a a a a a a a a a a a a a a a a a a a a a a a''"] u h w by simp
qed

text \<open>
  Claim C6 as stated fails on a text with an underscore: \<open>_\<close> has no alphanumeric run,
  so the specification's rule gives 5, but it is one match of \<^verbatim>\<open>\w+\<close> and hits no
  indicator, so the code returns 10.
\<close>

theorem estimate_propaganda_underscore_counterexample:
  "length (word_tokens ''_'') = 0 \<and> propaganda_reference ''_'' = 5 \<and>
   regex_word_count ''_'' = 1 \<and> estimate_propaganda ''_'' = 10 \<and>
   estimate_propaganda ''_'' \<noteq> propaganda_reference ''_''"
proof -
  have t: "length (word_tokens ''_'') = 0" by code_simp
  have r: "propaganda_reference ''_'' = 5"
    by (simp add: propaganda_reference_def propaganda_formula_def t)
  have w: "regex_word_count ''_'' = 1" by code_simp
  have f: "findall_w (lower ''_'') = [''_'']" by code_simp
  have h: "sum_in propaganda_indicators (lower ''_'') = 0" by code_simp
  have e: "estimate_propaganda ''_'' = 10"
    by (simp add: estimate_propaganda_def propaganda_score_with_def Let_def f h)
  from t r w e show ?thesis by simp
qed

text \<open>
  Claim C10. The indicators \<open>BREAKING\<close> and \<open>EXCLUSIVE\<close> never hit, since the text is
  lower-cased before the search: \<^const>\<open>estimate_propaganda\<close> computes the same value as
  its variant without these two indicators.
\<close>

theorem uppercase_indicators_never_hit:
  "estimate_propaganda text = estimate_propaganda_lowercase_only text \<and>
   sum_in [''BREAKING'', ''EXCLUSIVE''] (lower text) = 0"
proof -
  have b: "\<not> str_in ''BREAKING'' (lower text)"
  proof
    assume "str_in ''BREAKING'' (lower text)"
    then have "set ''BREAKING'' \<subseteq> set (lower text)"
      by (simp only: str_in_sublist sublist_set)
    then have "CHR ''B'' \<in> set (lower text)" by simp
    then show False using lower_no_upper [of "CHR ''B''" "text"] by simp
  qed
  have e: "\<not> str_in ''EXCLUSIVE'' (lower text)"
  proof
    assume "str_in ''EXCLUSIVE'' (lower text)"
    then have "set ''EXCLUSIVE'' \<subseteq> set (lower text)"
      by (simp only: str_in_sublist sublist_set)
    then have "CHR ''E'' \<in> set (lower text)" by simp
    then show False using lower_no_upper [of "CHR ''E''" "text"] by simp
  qed
  have zero: "sum_in [''BREAKING'', ''EXCLUSIVE''] (lower text) = 0"
    using b e by (simp add: sum_in_def)
  have split_list: "propaganda_indicators =
      [''must'', ''always'', ''never'', ''every'', ''all'', ''none'', ''everyone'', ''nobody'',
        ''undoubtedly'', ''certainly'', ''absolutely'', ''obviously'', ''clearly'',
        ''definitely'', ''!!'', ''??''] @ [''BREAKING'', ''EXCLUSIVE'']"
    by (simp add: propaganda_indicators_def)
  have cnt: "sum_in propaganda_indicators (lower text) =
      sum_in [''must'', ''always'', ''never'', ''every'', ''all'', ''none'', ''everyone'', ''nobody'',
        ''undoubtedly'', ''certainly'', ''absolutely'', ''obviously'', ''clearly'',
        ''definitely'', ''!!'', ''??''] (lower text)"
    by (simp only: split_list sum_in_append zero add_0_right)
  have "estimate_propaganda text = estimate_propaganda_lowercase_only text"
    by (simp only: estimate_propaganda_def estimate_propaganda_lowercase_only_def
        propaganda_score_with_def Let_def cnt)
  then show ?thesis using zero by simp
qed

section \<open>Topic classification: the labels returned\<close>

text \<open>
  Claim C7. \<^const>\<open>extract_topics\<close> never returns the empty list; a topic of the table is
  in the result exactly when one of its keywords occurs as a substring of the
  lower-case combination of title and text (so several topics can be returned
  together); and the result is \<open>[uncategorized]\<close> exactly when no keyword of any topic
  occurs or both title and text are empty.
\<close>

theorem extract_topics_labels:
  "extract_topics text title \<noteq> [] \<and>
   (\<forall>(topic, keywords) \<in> set topic_keywords.
      topic \<in> set (extract_topics text title) \<longleftrightarrow>
        (\<exists>k \<in> set keywords. sublist k (lower (title @ '' '' @ text)))) \<and>
   (extract_topics text title = [''uncategorized''] \<longleftrightarrow>
      (\<forall>(topic, keywords) \<in> set topic_keywords.
         \<forall>k \<in> set keywords. \<not> sublist k (lower (title @ '' '' @ text))) \<or>
      (title = [] \<and> text = []))"
proof -
  let ?ct = "lower (title @ '' '' @ text)"
  let ?D = "detect topic_keywords ?ct"
  have res: "extract_topics text title = (if ?D = [] then [''uncategorized''] else ?D)"
    by (rule extract_topics_detect)
  have nonempty: "extract_topics text title \<noteq> []"
    by (simp add: res)
  have unc: "''uncategorized'' \<notin> set ?D"
    using uncategorized_not_topic by (auto simp: detect_set)
  have member: "topic \<in> set (extract_topics text title) \<longleftrightarrow> (\<exists>k \<in> set kws. sublist k ?ct)"
    if "(topic, kws) \<in> set topic_keywords" for topic kws
  proof -
    have d: "topic \<in> set ?D \<longleftrightarrow> (\<exists>k \<in> set kws. sublist k ?ct)"
      using detect_distinct [OF topic_keywords_distinct that] .
    have "topic \<noteq> ''uncategorized''"
      using that uncategorized_not_topic by auto
    then show ?thesis using d by (auto simp: res)
  qed
  have only_if_none: "extract_topics text title = [''uncategorized''] \<longleftrightarrow> ?D = []"
  proof
    assume a: "extract_topics text title = [''uncategorized'']"
    show "?D = []"
    proof (rule ccontr)
      assume "?D \<noteq> []"
      then have "?D = [''uncategorized'']" using a by (simp add: res)
      then show False using unc by simp
    qed
  next
    assume "?D = []"
    then show "extract_topics text title = [''uncategorized'']" by (simp add: res)
  qed
  have both_empty: "?D = []" if "title = [] \<and> text = []"
    using that detect_blank by simp
  have unc_iff: "extract_topics text title = [''uncategorized''] \<longleftrightarrow>
      (\<forall>(topic, keywords) \<in> set topic_keywords. \<forall>k \<in> set keywords. \<not> sublist k ?ct) \<or>
      (title = [] \<and> text = [])"
    using only_if_none both_empty detect_Nil_iff [of topic_keywords ?ct] by blast
  show ?thesis using nonempty member unc_iff by blast
qed

text \<open>
  A text that mentions \<open>stock\<close>, \<open>market\<close> and \<open>software\<close> is labelled both business and
  technology; a text without any keyword is uncategorized.
\<close>

theorem extract_topics_labels_witness:
  "''business'' \<in> set (extract_topics ''Shares fell as the stock market reacted to new software.'' ''Daily Brief'') \<and>
   ''technology'' \<in> set (extract_topics ''Shares fell as the stock market reacted to new software.'' ''Daily Brief'') \<and>
   extract_topics ''Shares fell as the stock market reacted to new software.'' ''Daily Brief'' \<noteq> [''uncategorized''] \<and>
   extract_topics ''xyz'' ''q'' = [''uncategorized'']"
proof -
  let ?text = "''Shares fell as the stock market reacted to new software.''"
  let ?title = "''Daily Brief''"
  let ?ct = "lower (?title @ '' '' @ ?text)"
  have ct: "?ct = ''daily brief shares fell as the stock market reacted to new software.''"
    by code_simp
  have b: "(''business'', [''business'', ''economy'', ''market'', ''stock'', ''finance'', ''company'',
         ''industry'']) \<in> set topic_keywords"
    by (simp add: topic_keywords_def)
  have t: "(''technology'', [''technology'', ''tech'', ''ai'', ''software'', ''hardware'', ''internet'',
         ''app'', ''digital'']) \<in> set topic_keywords"
    by (simp add: topic_keywords_def)
  have sb: "sublist ''stock'' ?ct" unfolding ct by code_simp
  have st: "sublist ''software'' ?ct" unfolding ct by code_simp
  note inst = extract_topics_labels [of ?text ?title]
  from inst b sb have 1: "''business'' \<in> set (extract_topics ?text ?title)" by fastforce
  from inst t st have 2: "''technology'' \<in> set (extract_topics ?text ?title)" by fastforce
  from inst b sb have 3: "extract_topics ?text ?title \<noteq> [''uncategorized'']" by fastforce
  have none: "detect topic_keywords (lower (''q'' @ '' '' @ ''xyz'')) = []" by code_simp
  from extract_topics_labels [of "''xyz''" "''q''"] none
  have 4: "extract_topics ''xyz'' ''q'' = [''uncategorized'']"
    by (simp add: detect_Nil_iff)
  from 1 2 3 4 show ?thesis by blast
qed

section \<open>The preference filter\<close>

text \<open>
  Claim C2. Of the articles the query returns (the first stage, with its page), the
  result of the filter holds exactly those that carry a classification whose reading
  level and information density lie in the closed windows of width 2 around the
  preferred values and whose bias and propaganda scores are at least the thresholds;
  this is what the callback decides for each article. A bias score equal to the
  threshold is kept, and raising the bias or propaganda score of a kept article keeps
  it: there is no upper bound.
\<close>

theorem post_query_filter_windows:
  "filter_articles sort_db days_ago skip limit prefs db
     = filter (\<lambda>a. \<exists>c. classification a = Some c \<and> within_preferences prefs c)
         (find_page sort_db (build_query days_ago prefs) skip limit db) \<and>
   (a \<in> set (filter_articles sort_db days_ago skip limit prefs db) \<longleftrightarrow>
      a \<in> set (find_page sort_db (build_query days_ago prefs) skip limit db) \<and>
      (\<exists>c. classification a = Some c \<and>
         classification.reading_level c
           \<in> {preferences.reading_level prefs - 2 .. preferences.reading_level prefs + 2} \<and>
         classification.information_density c
           \<in> {preferences.information_density prefs - 2 .. preferences.information_density prefs + 2} \<and>
         bias_score c \<ge> bias_threshold prefs \<and>
         propaganda_score c \<ge> propaganda_threshold prefs)) \<and>
   (post_query_keep prefs a \<longleftrightarrow>
      (\<exists>c. classification a = Some c \<and> within_preferences prefs c)) \<and>
   (a \<in> set (find_page sort_db (build_query days_ago prefs) skip limit db) \<and>
    classification a = Some c \<and>
    \<bar>classification.reading_level c - preferences.reading_level prefs\<bar> \<le> 2 \<and>
    \<bar>classification.information_density c - preferences.information_density prefs\<bar> \<le> 2 \<and>
    bias_score c = bias_threshold prefs \<and>
    propaganda_score c \<ge> propaganda_threshold prefs \<longrightarrow>
      a \<in> set (filter_articles sort_db days_ago skip limit prefs db)) \<and>
   (classification a = Some c \<and> post_query_keep prefs a \<and>
    bias_score c \<le> b \<and> propaganda_score c \<le> p \<longrightarrow>
      post_query_keep prefs
        (a\<lparr>classification := Some (c\<lparr>bias_score := b, propaganda_score := p\<rparr>)\<rparr>))"
proof -
  let ?page = "find_page sort_db (build_query days_ago prefs) skip limit db"
  have keep: "post_query_keep prefs x \<longleftrightarrow>
      (\<exists>c. classification x = Some c \<and> within_preferences prefs c)" for x
    by (rule post_query_keep_within)
  have out: "filter_articles sort_db days_ago skip limit prefs db
      = filter (\<lambda>a. \<exists>c. classification a = Some c \<and> within_preferences prefs c) ?page"
    unfolding filter_articles_def by (rule filter_cong) (simp_all add: keep)
  have mem: "a \<in> set (filter_articles sort_db days_ago skip limit prefs db) \<longleftrightarrow>
      a \<in> set ?page \<and>
      (\<exists>c. classification a = Some c \<and>
         classification.reading_level c
           \<in> {preferences.reading_level prefs - 2 .. preferences.reading_level prefs + 2} \<and>
         classification.information_density c
           \<in> {preferences.information_density prefs - 2 .. preferences.information_density prefs + 2} \<and>
         bias_score c \<ge> bias_threshold prefs \<and>
         propaganda_score c \<ge> propaganda_threshold prefs)"
    by (simp add: out within_preferences_def)
  have border: "a \<in> set (filter_articles sort_db days_ago skip limit prefs db)"
    if "a \<in> set ?page" "classification a = Some c"
      "\<bar>classification.reading_level c - preferences.reading_level prefs\<bar> \<le> 2"
      "\<bar>classification.information_density c - preferences.information_density prefs\<bar> \<le> 2"
      "bias_score c = bias_threshold prefs"
      "propaganda_score c \<ge> propaganda_threshold prefs"
    using that by (auto simp: out within_preferences_def abs_le_iff)
  have up: "post_query_keep prefs
        (a\<lparr>classification := Some (c\<lparr>bias_score := b, propaganda_score := p\<rparr>)\<rparr>)"
    if "classification a = Some c" "post_query_keep prefs a"
      "bias_score c \<le> b" "propaganda_score c \<le> p"
    using that by (simp add: post_query_keep_def)
  from out mem keep border up show ?thesis by blast
qed

text \<open>
  The sample article sits on the bias threshold and on both window borders: the query
  returns it and the filter keeps it. It stays kept with both scores at 10, and is
  dropped with a reading level of 7.5 against the preferred 5.
\<close>

theorem post_query_filter_windows_witness:
  "bias_score sample_classification = bias_threshold (sample_preferences ''OR'') \<and>
   classification.reading_level sample_classification
     = preferences.reading_level (sample_preferences ''OR'') + 2 \<and>
   classification.information_density sample_classification
     = preferences.information_density (sample_preferences ''OR'') - 2 \<and>
   find_page sort_desc (build_query sample_days_ago (sample_preferences ''OR'')) 0 0
     [sample_article ''u'' 0] = [sample_article ''u'' 0] \<and>
   filter_articles sort_desc sample_days_ago 0 0 (sample_preferences ''OR'')
     [sample_article ''u'' 0] = [sample_article ''u'' 0] \<and>
   post_query_keep (sample_preferences ''OR'')
     ((sample_article ''u'' 0)\<lparr>classification :=
        Some (sample_classification\<lparr>bias_score := 10, propaganda_score := 10\<rparr>)\<rparr>) \<and>
   filter_articles sort_desc sample_days_ago 0 0 (sample_preferences ''OR'')
     [(sample_article ''u'' 0)\<lparr>classification :=
        Some (sample_classification\<lparr>classification.reading_level := 7.5\<rparr>)\<rparr>] = []"
proof -
  let ?p = "sample_preferences ''OR''"
  let ?a = "sample_article ''u'' 0"
  let ?far = "?a\<lparr>classification :=
        Some (sample_classification\<lparr>classification.reading_level := 7.5\<rparr>)\<rparr>"
  have c: "classification ?a = Some sample_classification"
    by (simp add: sample_article_def)
  have v: "bias_score sample_classification = bias_threshold ?p"
    "classification.reading_level sample_classification = preferences.reading_level ?p + 2"
    "classification.information_density sample_classification
       = preferences.information_density ?p - 2"
    "propaganda_score sample_classification \<ge> propaganda_threshold ?p"
    by (simp_all add: sample_classification_def sample_preferences_def)
  have page: "find_page sort_desc (build_query sample_days_ago ?p) 0 0 [?a] = [?a]"
    by (simp add: find_page_def limit_to_def sort_desc_def sample_article_matches)
  have inpage: "?a \<in> set (find_page sort_desc (build_query sample_days_ago ?p) 0 0 [?a])"
    by (simp add: page)
  have near: "\<bar>classification.reading_level sample_classification
        - preferences.reading_level ?p\<bar> \<le> 2"
    "\<bar>classification.information_density sample_classification
        - preferences.information_density ?p\<bar> \<le> 2"
    by (simp_all add: v)
  have top: "bias_score sample_classification \<le> 10" "propaganda_score sample_classification \<le> 10"
    by (simp_all add: sample_classification_def)
  note inst = post_query_filter_windows
    [of sort_desc sample_days_ago 0 0 ?p "[?a]" ?a sample_classification 10 10]
  from inst inpage c near v(1) v(4)
  have m: "?a \<in> set (filter_articles sort_desc sample_days_ago 0 0 ?p [?a])"
    by blast
  then have k: "post_query_keep ?p ?a"
    by (simp add: filter_articles_def page split: if_splits)
  then have out: "filter_articles sort_desc sample_days_ago 0 0 ?p [?a] = [?a]"
    by (simp add: filter_articles_def page)
  from inst c k top have k2: "post_query_keep ?p
     (?a\<lparr>classification := Some (sample_classification\<lparr>bias_score := 10, propaganda_score := 10\<rparr>)\<rparr>)"
    by blast
  have far: "\<not> (\<exists>c. classification ?far = Some c \<and> within_preferences ?p c)"
    by (simp add: within_preferences_def sample_preferences_def)
  from post_query_filter_windows [of sort_desc sample_days_ago 0 0 ?p "[?far]"]
  have "filter_articles sort_desc sample_days_ago 0 0 ?p [?far]
      = filter (\<lambda>a. \<exists>c. classification a = Some c \<and> within_preferences ?p c)
          (find_page sort_desc (build_query sample_days_ago ?p) 0 0 [?far])"
    by blast
  moreover have "find_page sort_desc (build_query sample_days_ago ?p) 0 0 [?far] = [?far]"
    by (simp add: find_page_def limit_to_def sort_desc_def matches_def build_query_def
        paywall_filter_def age_filter_def topic_filter_def region_filter_def
        matches_topics_def on_classification_def sample_preferences_def sample_article_def
        sample_classification_def sample_days_ago_def)
  ultimately have k3: "filter_articles sort_desc sample_days_ago 0 0 ?p [?far] = []"
    using far by simp
  from v page out k2 k3 show ?thesis by simp
qed



text \<open>
  Claim C9, amended. Whatever descending sort the database uses, for a collection listed
  newest first with pairwise distinct dates the result of the filter is a subsequence of
  it, newest first, and holds only articles that survive both stages: it is the
  post-query filter of the page that \<open>skip\<close> and \<open>limit\<close> cut from the articles the query
  selects. It holds every surviving article when nothing is skipped and the limit is 0
  (none) or not below the number of selected articles.
\<close>

theorem filter_articles_order:
  assumes "descending_sort sort_db" "newest_first db" "distinct (map published_date db)"
  shows "filter_articles sort_db days_ago skip limit prefs db
       = filter (post_query_keep prefs)
           (limit_to limit (drop skip (filter (matches (build_query days_ago prefs)) db))) \<and>
     subseq (filter_articles sort_db days_ago skip limit prefs db) db \<and>
     newest_first (filter_articles sort_db days_ago skip limit prefs db) \<and>
     (\<forall>a \<in> set (filter_articles sort_db days_ago skip limit prefs db).
        a \<in> set db \<and> survives days_ago prefs a) \<and>
     (skip = 0 \<and>
      (limit = 0 \<or>
       int (length (filter (matches (build_query days_ago prefs)) db)) \<le> \<bar>limit\<bar>) \<longrightarrow>
        filter_articles sort_db days_ago skip limit prefs db
          = filter (survives days_ago prefs) db)"
proof -
  let ?q = "build_query days_ago prefs"
  let ?A = "filter (matches ?q) db"
  let ?page = "limit_to limit (drop skip ?A)"
  let ?out = "filter_articles sort_db days_ago skip limit prefs db"
  have out: "?out = filter (post_query_keep prefs) ?page"
    using assms by (simp add: filter_articles_def find_page_sorted)
  have "subseq ?page (drop skip ?A)" by (rule subseq_limit_to)
  also have "subseq (drop skip ?A) ?A" by (rule subseq_drop)
  also have "subseq ?A db" by simp
  finally have page_sub: "subseq ?page db" .
  have "subseq (filter (post_query_keep prefs) ?page) ?page" by simp
  then have sub: "subseq ?out db"
    using page_sub out subseq_order.trans by metis
  have nf: "newest_first ?out"
    unfolding out using assms(2)
    by (intro newest_first_filter newest_first_limit_to newest_first_drop)
  have page_set: "set ?page \<subseteq> set ?A"
  proof
    fix a assume "a \<in> set ?page"
    then have "a \<in> set (drop skip ?A)"
      by (cases "limit = 0") (auto simp: limit_to_def dest: in_set_takeD)
    then show "a \<in> set ?A" by (rule in_set_dropD)
  qed
  have mem: "\<forall>a \<in> set ?out. a \<in> set db \<and> survives days_ago prefs a"
    unfolding out survives_def using page_set by auto
  have all: "?out = filter (survives days_ago prefs) db"
    if "skip = 0 \<and> (limit = 0 \<or> int (length ?A) \<le> \<bar>limit\<bar>)"
  proof -
    have "?page = ?A" using that by (simp add: limit_to_all)
    then show ?thesis unfolding out by (simp add: survives_def [abs_def])
  qed
  from out sub nf mem all show ?thesis by blast
qed

text \<open>
  Two sample articles of different dates under the sort that reverses equal dates,
  unlimited and with a limit of 1.
\<close>

theorem filter_articles_order_witness:
  "descending_sort sort_desc_reversing \<and>
   newest_first [sample_article ''first'' 2000, sample_article ''second'' 1000] \<and>
   distinct (map published_date [sample_article ''first'' 2000, sample_article ''second'' 1000]) \<and>
   filter_articles sort_desc_reversing sample_days_ago 0 0 (sample_preferences ''OR'')
     [sample_article ''first'' 2000, sample_article ''second'' 1000]
     = filter (survives sample_days_ago (sample_preferences ''OR''))
         [sample_article ''first'' 2000, sample_article ''second'' 1000] \<and>
   subseq (filter_articles sort_desc_reversing sample_days_ago 0 1 (sample_preferences ''OR'')
       [sample_article ''first'' 2000, sample_article ''second'' 1000])
     [sample_article ''first'' 2000, sample_article ''second'' 1000]"
proof -
  let ?db = "[sample_article ''first'' 2000, sample_article ''second'' 1000]"
  let ?p = "sample_preferences ''OR''"
  note srt = descending_sort_reversing
  have nf: "newest_first ?db"
    by (simp add: newest_first_def sample_article_def)
  have dd: "distinct (map published_date ?db)"
    by (simp add: sample_article_def)
  have unlimited: "(0::nat) = 0 \<and>
      ((0::int) = 0 \<or>
       int (length (filter (matches (build_query sample_days_ago ?p)) ?db)) \<le> \<bar>0\<bar>)"
    by simp
  from filter_articles_order [OF srt nf dd, of sample_days_ago 0 0 ?p] unlimited
  have 1: "filter_articles sort_desc_reversing sample_days_ago 0 0 ?p ?db
      = filter (survives sample_days_ago ?p) ?db"
    by blast
  from filter_articles_order [OF srt nf dd, of sample_days_ago 0 1 ?p]
  have 2: "subseq (filter_articles sort_desc_reversing sample_days_ago 0 1 ?p ?db) ?db"
    by blast
  from srt nf dd 1 2 show ?thesis by blast
qed

text \<open>
  Claim C9 as stated fails where the page cuts: of two surviving articles, a limit of 1
  returns the first only.
\<close>

theorem filter_articles_page_counterexample:
  "newest_first [sample_article ''first'' 2000, sample_article ''second'' 1000] \<and>
   survives sample_days_ago (sample_preferences ''OR'') (sample_article ''first'' 2000) \<and>
   survives sample_days_ago (sample_preferences ''OR'') (sample_article ''second'' 1000) \<and>
   filter_articles sort_desc sample_days_ago 0 1 (sample_preferences ''OR'')
     [sample_article ''first'' 2000, sample_article ''second'' 1000]
     = [sample_article ''first'' 2000] \<and>
   filter_articles sort_desc sample_days_ago 0 1 (sample_preferences ''OR'')
     [sample_article ''first'' 2000, sample_article ''second'' 1000]
     \<noteq> filter (survives sample_days_ago (sample_preferences ''OR''))
         [sample_article ''first'' 2000, sample_article ''second'' 1000]"
proof -
  let ?p = "sample_preferences ''OR''"
  let ?db = "[sample_article ''first'' 2000, sample_article ''second'' 1000]"
  have s1: "survives sample_days_ago ?p (sample_article ''first'' 2000)"
    and s2: "survives sample_days_ago ?p (sample_article ''second'' 1000)"
    by (simp_all add: survives_def sample_article_matches sample_article_kept)
  have nf: "newest_first ?db"
    by (simp add: newest_first_def sample_article_def)
  have srt: "sort_desc ?db = ?db"
    by (simp add: sort_desc_def sample_article_def)
  have out: "filter_articles sort_desc sample_days_ago 0 1 ?p ?db = [sample_article ''first'' 2000]"
    by (simp add: filter_articles_def find_page_def srt limit_to_def sample_article_matches
        sample_article_kept)
  have all: "filter (survives sample_days_ago ?p) ?db = ?db"
    using s1 s2 by simp
  from nf s1 s2 out all show ?thesis by simp
qed

text \<open>
  Why the dates must differ: on two surviving articles of one date the sort that
  reverses equal dates, a descending sort as well, returns them in the other order,
  which is no subsequence of the collection.
\<close>

lemma equal_dates_may_reorder:
  "descending_sort sort_desc_reversing \<and>
   newest_first [sample_article ''first'' 1000, sample_article ''second'' 1000] \<and>
   filter_articles sort_desc_reversing sample_days_ago 0 0 (sample_preferences ''OR'')
     [sample_article ''first'' 1000, sample_article ''second'' 1000]
     = [sample_article ''second'' 1000, sample_article ''first'' 1000] \<and>
   \<not> subseq
       (filter_articles sort_desc_reversing sample_days_ago 0 0 (sample_preferences ''OR'')
          [sample_article ''first'' 1000, sample_article ''second'' 1000])
       [sample_article ''first'' 1000, sample_article ''second'' 1000]"
proof -
  let ?p = "sample_preferences ''OR''"
  let ?a = "sample_article ''first'' 1000"
  let ?b = "sample_article ''second'' 1000"
  have ne: "?a \<noteq> ?b" by (simp add: sample_article_def)
  have nf: "newest_first [?a, ?b]"
    by (simp add: newest_first_def sample_article_def)
  have srt: "sort_desc_reversing [?a, ?b] = [?b, ?a]"
    by (simp add: sort_desc_reversing_def sample_article_def)
  have out: "filter_articles sort_desc_reversing sample_days_ago 0 0 ?p [?a, ?b] = [?b, ?a]"
    by (simp add: filter_articles_def find_page_def srt limit_to_def sample_article_matches
        sample_article_kept)
  have "\<not> subseq [?b, ?a] [?a, ?b]" using ne by auto
  with descending_sort_reversing nf out show ?thesis by simp
qed

end
